theory Spec2Isabelle
  imports Main
begin

section \<open>Exceptions, results and the outside world\<close>

text \<open>
  The Python exception classes the program names or can meet.  \<open>KeyboardInterrupt\<close> derives
  from \<open>BaseException\<close> only, so a handler \<open>except Exception\<close> lets it through; every other
  class here derives from \<open>Exception\<close>.  \<open>TimeoutException\<close> and \<open>NoSuchElementException\<close>
  are the two classes the selector loops catch.
\<close>

datatype exn_class =
    TimeoutException
  | NoSuchElementException
  | WebDriverException
  | ValueError
  | OtherException
  | KeyboardInterrupt

datatype exn = Exn (exn_class: exn_class) (str: string)

definition is_Exception :: "exn \<Rightarrow> bool" where
  "is_Exception e = (exn_class e \<noteq> KeyboardInterrupt)"

definition not_located :: "exn \<Rightarrow> bool" where
  \<comment> \<open>\<open>except (TimeoutException, NoSuchElementException)\<close>\<close>
  "not_located e = (exn_class e = TimeoutException \<or> exn_class e = NoSuchElementException)"

definition is_WebDriverException :: "exn \<Rightarrow> bool" where
  \<comment> \<open>\<open>except WebDriverException\<close>: the class and its two subclasses\<close>
  "is_WebDriverException e =
     (exn_class e = WebDriverException \<or> exn_class e = TimeoutException
      \<or> exn_class e = NoSuchElementException)"

datatype status = Success | Failed

text \<open>The dict built at the top of \<open>process_url\<close>; one row of \<open>results.csv\<close>.\<close>

record result =
  url :: string
  status :: status
  screenshot_path :: "string option"
  error :: "string option"
  timestamp :: string

datatype By = CSS_SELECTOR | XPATH | TAG_NAME

datatype condition = presence_of_element_located | element_to_be_clickable

text \<open>
  Every call the program makes to its collaborators (the clock, Selenium, pandas, the file
  system).  Page elements and driver handles are identified by numbers.
\<close>

datatype call =
    Now
  | Get string
  | WaitUntil nat condition By string
  | IsDisplayed nat
  | Clear nat
  | SendKeys nat string
  | Click nat
  | SaveScreenshot string
  | ExecuteScript string
  | SetWindowSize int int
  | Sleep nat
  | Mkdir string
  | ReadCsv string
  | ToCsv string "result list"
  | Chrome bool
  | SetPageLoadTimeout nat
  | Quit

text \<open>An event is a call together with whether it returned (\<open>True\<close>) or raised.\<close>

type_synonym event = "call \<times> bool"

text \<open>\<open>urllib.parse.ParseResult\<close>.\<close>

record parse_result =
  scheme :: string
  netloc :: string
  path :: string
  params :: string
  query :: string
  fragment :: string

text \<open>
  The collaborators are parameters of the model: the two pure library functions
  \<open>urlparse\<close> (which raises on some strings) and \<open>slugify\<close>, and for every other call an
  answer that may depend on all events so far.  A call either returns a value of its
  type or raises.
\<close>

record env =
  urlparse :: "string \<Rightarrow> exn + parse_result"
  slugify :: "string \<Rightarrow> string"
  answer_unit :: "event list \<Rightarrow> call \<Rightarrow> exn + unit"
  answer_elem :: "event list \<Rightarrow> call \<Rightarrow> exn + nat"
  answer_bool :: "event list \<Rightarrow> call \<Rightarrow> exn + bool"
  answer_int :: "event list \<Rightarrow> call \<Rightarrow> exn + int"
  answer_frame :: "event list \<Rightarrow> call \<Rightarrow> exn + string list list"
  answer_str :: "event list \<Rightarrow> call \<Rightarrow> string"

text \<open>
  The state a method runs in: the field \<open>self.driver\<close> (\<open>None\<close> after \<open>__init__\<close> and after
  \<open>cleanup\<close>) and the events so far.  The fields \<open>base_url\<close> and \<open>email\<close> are set once in
  \<open>__init__\<close> and never assigned again; \<open>headless\<close> is a parameter of \<open>setup_driver\<close>.
  Logging has no effect on any value and is left out.
\<close>

record state =
  driver :: "nat option"
  hist :: "event list"

definition base_url :: string where
  "base_url = ''https://seoworks.ai''"

definition email :: string where
  "email = ''JOSH@PROJECTXLABS.AI''"

section \<open>Statements that may raise\<close>

type_synonym 'a io = "state \<Rightarrow> (exn + 'a) \<times> state"

definition return :: "'a \<Rightarrow> 'a io" where
  "return x = (\<lambda>s. (Inr x, s))"

definition raise :: "exn \<Rightarrow> 'a io" where
  "raise e = (\<lambda>s. (Inl e, s))"

definition bind :: "'a io \<Rightarrow> ('a \<Rightarrow> 'b io) \<Rightarrow> 'b io" where
  "bind m f = (\<lambda>s. case m s of (Inl e, s') \<Rightarrow> (Inl e, s') | (Inr x, s') \<Rightarrow> f x s')"

definition try_except :: "'a io \<Rightarrow> (exn \<Rightarrow> bool) \<Rightarrow> (exn \<Rightarrow> 'a io) \<Rightarrow> 'a io" where
  \<comment> \<open>\<open>try: m  except C as e: h e\<close>, with \<open>catches\<close> the classes \<open>C\<close>\<close>
  "try_except m catches h =
     (\<lambda>s. case m s of
            (Inl e, s') \<Rightarrow> if catches e then h e s' else (Inl e, s')
          | (Inr x, s') \<Rightarrow> (Inr x, s'))"

definition try_finally :: "'a io \<Rightarrow> unit io \<Rightarrow> 'a io" where
  \<comment> \<open>\<open>try: m  finally: fin\<close>: \<open>fin\<close> runs whatever \<open>m\<close> did; if \<open>fin\<close> raises, that wins\<close>
  "try_finally m fin =
     (\<lambda>s. case m s of
            (r, s') \<Rightarrow> (case fin s' of (Inl e, s'') \<Rightarrow> (Inl e, s'') | (Inr _, s'') \<Rightarrow> (r, s'')))"

definition perform :: "(event list \<Rightarrow> call \<Rightarrow> exn + 'a) \<Rightarrow> call \<Rightarrow> 'a io" where
  "perform answer c =
     (\<lambda>s. case answer (hist s) c of
            Inl e \<Rightarrow> (Inl e, s\<lparr>hist := hist s @ [(c, False)]\<rparr>)
          | Inr x \<Rightarrow> (Inr x, s\<lparr>hist := hist s @ [(c, True)]\<rparr>))"

definition now :: "env \<Rightarrow> string io" where
  \<comment> \<open>\<open>datetime.now().strftime(...)\<close>\<close>
  "now env = perform (\<lambda>h c. Inr (answer_str env h c)) Now"

definition driver_get :: "env \<Rightarrow> string \<Rightarrow> unit io" where
  "driver_get env address = perform (answer_unit env) (Get address)"

definition wait_until :: "env \<Rightarrow> nat \<Rightarrow> condition \<Rightarrow> By \<Rightarrow> string \<Rightarrow> nat io" where
  \<comment> \<open>\<open>WebDriverWait(self.driver, t).until(EC.cond((by, selector)))\<close>\<close>
  "wait_until env t cond b selector = perform (answer_elem env) (WaitUntil t cond b selector)"

definition is_displayed :: "env \<Rightarrow> nat \<Rightarrow> bool io" where
  "is_displayed env el = perform (answer_bool env) (IsDisplayed el)"

definition clear :: "env \<Rightarrow> nat \<Rightarrow> unit io" where
  "clear env el = perform (answer_unit env) (Clear el)"

definition send_keys :: "env \<Rightarrow> nat \<Rightarrow> string \<Rightarrow> unit io" where
  "send_keys env el text = perform (answer_unit env) (SendKeys el text)"

definition click :: "env \<Rightarrow> nat \<Rightarrow> unit io" where
  "click env el = perform (answer_unit env) (Click el)"

definition save_screenshot :: "env \<Rightarrow> string \<Rightarrow> unit io" where
  "save_screenshot env file = perform (answer_unit env) (SaveScreenshot file)"

definition execute_script :: "env \<Rightarrow> string \<Rightarrow> int io" where
  "execute_script env script = perform (answer_int env) (ExecuteScript script)"

definition set_window_size :: "env \<Rightarrow> int \<Rightarrow> int \<Rightarrow> unit io" where
  "set_window_size env w h = perform (answer_unit env) (SetWindowSize w h)"

definition sleep :: "env \<Rightarrow> nat \<Rightarrow> unit io" where
  "sleep env seconds = perform (answer_unit env) (Sleep seconds)"

definition mkdir :: "env \<Rightarrow> string \<Rightarrow> unit io" where
  "mkdir env dir = perform (answer_unit env) (Mkdir dir)"

definition read_csv :: "env \<Rightarrow> string \<Rightarrow> string list list io" where
  \<comment> \<open>\<open>pd.read_csv\<close>: the frame as its list of columns\<close>
  "read_csv env file = perform (answer_frame env) (ReadCsv file)"

definition to_csv :: "env \<Rightarrow> string \<Rightarrow> result list \<Rightarrow> unit io" where
  \<comment> \<open>\<open>pd.DataFrame(results).to_csv(file, index=False)\<close>\<close>
  "to_csv env file rows = perform (answer_unit env) (ToCsv file rows)"

definition joinpath :: "string \<Rightarrow> string \<Rightarrow> string" where
  \<comment> \<open>\<open>dir / name\<close> on \<open>pathlib.Path\<close>\<close>
  "joinpath dir name = dir @ ''/'' @ name"

section \<open>\<open>sanitize_filename\<close>\<close>

definition replace :: "char \<Rightarrow> char \<Rightarrow> string \<Rightarrow> string" where
  \<comment> \<open>\<open>str.replace\<close> with one-character arguments\<close>
  "replace old new text = map (\<lambda>c. if c = old then new else c) text"

definition sanitize_filename :: "env \<Rightarrow> string \<Rightarrow> string io" where
  "sanitize_filename env u =
     (case urlparse env u of
        Inl e \<Rightarrow> raise e
      | Inr parsed \<Rightarrow>
          (let domain = netloc parsed;
               path = replace (CHR ''/'') (CHR ''_'') (path parsed);
               filename = slugify env (domain @ path)
           in return (if length filename > 100 then take 100 filename else filename)))"

section \<open>The selector loops of \<open>process_url\<close>\<close>

definition url_selectors :: "string list" where
  "url_selectors =
     [''input[type='text']'', ''input[type='url']'', ''input[placeholder*='URL']'',
      ''input[placeholder*='url']'', ''input[placeholder*='website']'', ''input[name*='url']'']"

definition button_selectors :: "string list" where
  "button_selectors =
     [''button[type='submit']'', ''//button[contains(text(), 'Analyze')]'',
      ''//button[contains(text(), 'Check')]'', ''//button[contains(text(), 'Audit')]'',
      ''//button[contains(text(), 'Submit')]'', ''input[type='submit']'']"

definition email_selectors :: "string list" where
  "email_selectors =
     [''input#email'', ''input[type='email']'', ''input[name='email']'',
      ''input[placeholder*='email']'', ''input[placeholder*='Email']'',
      ''//input[@type='email']'', ''//input[@name='email']'']"

definition final_submit_selectors :: "string list" where
  "final_submit_selectors =
     [''//button[contains(text(), 'Submit')]'', ''//button[contains(text(), 'Get Results')]'',
      ''//button[contains(text(), 'Send')]'', ''button[type='submit']'', ''input[type='submit']'']"

definition popup_selector :: string where
  "popup_selector = ''//*[@id='cta_178493']/div/div[2]''"

definition css_only :: "string \<Rightarrow> By" where
  \<comment> \<open>the URL input loop passes \<open>By.CSS_SELECTOR\<close> for every selector\<close>
  "css_only selector = CSS_SELECTOR"

definition xpath_or_css :: "string \<Rightarrow> By" where
  \<comment> \<open>\<open>By.XPATH if selector.startswith("//") else By.CSS_SELECTOR\<close>\<close>
  "xpath_or_css selector = (if take 2 selector = ''//'' then XPATH else CSS_SELECTOR)"

text \<open>
  The four loops \<open>for selector in ...: try: x = WebDriverWait(...).until(...); if
  x.is_displayed(): break; except (TimeoutException, NoSuchElementException): continue\<close>
  differ in the condition waited for, in how \<open>By\<close> is chosen and in the selectors.
  \<open>found\<close> is the loop's variable (\<open>url_input\<close>, \<open>submit_button\<close>, \<open>email_input\<close>,
  \<open>final_submit\<close>), \<open>None\<close> before the loop.  It is assigned as soon as the wait returns,
  before \<open>is_displayed\<close> is asked, and nothing assigns it again when the element is not
  displayed or when a later selector times out.  The pair returned by the \<open>try\<close> is the
  variable and whether \<open>break\<close> was reached.
\<close>

fun selector_loop ::
  "env \<Rightarrow> condition \<Rightarrow> (string \<Rightarrow> By) \<Rightarrow> string list \<Rightarrow> nat option \<Rightarrow> nat option io" where
  "selector_loop env cond by_of [] found = return found"
| "selector_loop env cond by_of (selector # rest) found =
     bind (try_except
             (bind (wait_until env 3 cond (by_of selector) selector) (\<lambda>el.
              try_except
                (bind (is_displayed env el) (\<lambda>shown. return (Some el, shown)))
                not_located (\<lambda>e. return (Some el, False))))
             not_located (\<lambda>e. return (found, False)))
       (\<lambda>(found', stop).
          if stop then return found' else selector_loop env cond by_of rest found')"

section \<open>\<open>process_url\<close>\<close>

definition initial_result :: "string \<Rightarrow> string \<Rightarrow> result" where
  "initial_result u ts =
     \<lparr>url = u, status = Failed, screenshot_path = None, error = None, timestamp = ts\<rparr>"

definition debug_screenshot :: "env \<Rightarrow> string \<Rightarrow> string \<Rightarrow> string \<Rightarrow> unit io" where
  \<comment> \<open>\<open>self.driver.save_screenshot(str(output_dir / f"debug_{self.sanitize_filename(url)}_{stage}.png"))\<close>\<close>
  "debug_screenshot env u output_dir stage =
     bind (sanitize_filename env u) (\<lambda>name.
     save_screenshot env (joinpath output_dir (''debug_'' @ name @ ''_'' @ stage @ ''.png'')))"

text \<open>
  The body of \<open>process_url\<close> is cut at its four selector loops, so that each piece ends
  with the value of the loop's variable.  The driver calls are answered by the
  collaborator whatever \<open>self.driver\<close> holds: \<open>process_csv\<close> calls \<open>process_url\<close> only
  after \<open>setup_driver\<close> has returned.
\<close>

definition find_url_input :: "env \<Rightarrow> string \<Rightarrow> string \<Rightarrow> nat option io" where
  \<comment> \<open>lines 151 to 183\<close>
  "find_url_input env u output_dir =
     bind (driver_get env base_url) (\<lambda>_.
     bind (wait_until env 10 presence_of_element_located TAG_NAME ''body'') (\<lambda>_.
     bind (debug_screenshot env u output_dir ''initial'') (\<lambda>_.
     selector_loop env presence_of_element_located css_only url_selectors None)))"

definition find_submit_button :: "env \<Rightarrow> string \<Rightarrow> string \<Rightarrow> nat \<Rightarrow> nat option io" where
  \<comment> \<open>lines 190 to 223\<close>
  "find_submit_button env u output_dir url_input =
     bind (clear env url_input) (\<lambda>_.
     bind (send_keys env url_input u) (\<lambda>_.
     bind (debug_screenshot env u output_dir ''url_entered'') (\<lambda>_.
     selector_loop env element_to_be_clickable xpath_or_css button_selectors None)))"

definition submit_url :: "env \<Rightarrow> string \<Rightarrow> string \<Rightarrow> nat \<Rightarrow> unit io" where
  \<comment> \<open>lines 230 to 236\<close>
  "submit_url env u output_dir submit_button =
     bind (click env submit_button) (\<lambda>_.
     debug_screenshot env u output_dir ''submitted'')"

definition find_email_input :: "env \<Rightarrow> nat option io" where
  \<comment> \<open>lines 241 to 265\<close>
  "find_email_input env =
     selector_loop env presence_of_element_located xpath_or_css email_selectors None"

definition find_final_submit :: "env \<Rightarrow> string \<Rightarrow> string \<Rightarrow> nat \<Rightarrow> nat option io" where
  \<comment> \<open>lines 272 to 304\<close>
  "find_final_submit env u output_dir email_input =
     bind (clear env email_input) (\<lambda>_.
     bind (send_keys env email_input email) (\<lambda>_.
     bind (debug_screenshot env u output_dir ''email_entered'') (\<lambda>_.
     selector_loop env element_to_be_clickable xpath_or_css final_submit_selectors None)))"

definition submit_email :: "env \<Rightarrow> string \<Rightarrow> string \<Rightarrow> nat \<Rightarrow> unit io" where
  \<comment> \<open>lines 311 to 317\<close>
  "submit_email env u output_dir final_submit =
     bind (click env final_submit) (\<lambda>_.
     debug_screenshot env u output_dir ''final_submitted'')"

definition email_steps :: "env \<Rightarrow> string \<Rightarrow> string \<Rightarrow> result \<Rightarrow> result option io" where
  \<comment> \<open>the body of the inner \<open>try\<close>, lines 240 to 317: \<open>Some r\<close> is \<open>return r\<close>, \<open>None\<close> falls through\<close>
  "email_steps env u output_dir res =
     bind (find_email_input env) (\<lambda>email_input.
     case email_input of
       None \<Rightarrow> return (Some (res\<lparr>error := Some ''Could not find email input field''\<rparr>))
     | Some el \<Rightarrow>
         bind (find_final_submit env u output_dir el) (\<lambda>final_submit.
         case final_submit of
           None \<Rightarrow> return (Some (res\<lparr>error := Some ''Could not find final submit button''\<rparr>))
         | Some button \<Rightarrow>
             bind (submit_email env u output_dir button) (\<lambda>_. return None)))"

definition email_form :: "env \<Rightarrow> string \<Rightarrow> string \<Rightarrow> result \<Rightarrow> result option io" where
  \<comment> \<open>the inner \<open>try ... except Exception as e\<close>, lines 239 to 322\<close>
  "email_form env u output_dir res =
     try_except (email_steps env u output_dir res) is_Exception
       (\<lambda>e. return (Some (res\<lparr>error := Some (''Failed to handle email form: '' @ str e)\<rparr>)))"

definition capture_results :: "env \<Rightarrow> string \<Rightarrow> string \<Rightarrow> result \<Rightarrow> result io" where
  \<comment> \<open>lines 325 to 363\<close>
  "capture_results env u output_dir res =
     bind (sleep env 5) (\<lambda>_.
     bind (wait_until env 30 presence_of_element_located TAG_NAME ''body'') (\<lambda>_.
     bind (try_except
             (bind (wait_until env 3 element_to_be_clickable XPATH popup_selector) (\<lambda>popup_close.
              click env popup_close))
             not_located (\<lambda>e. return ())) (\<lambda>_.
     bind (sanitize_filename env u) (\<lambda>name.
     let shot = joinpath output_dir (name @ ''.png'') in
     bind (execute_script env ''return document.body.scrollHeight'') (\<lambda>height.
     bind (set_window_size env 1920 height) (\<lambda>_.
     bind (save_screenshot env shot) (\<lambda>_.
     return (res\<lparr>status := Success, screenshot_path := Some shot\<rparr>))))))))"

definition workflow :: "env \<Rightarrow> string \<Rightarrow> string \<Rightarrow> result \<Rightarrow> result io" where
  \<comment> \<open>the body of the outer \<open>try\<close>, lines 148 to 363\<close>
  "workflow env u output_dir res =
     bind (find_url_input env u output_dir) (\<lambda>url_input.
     case url_input of
       None \<Rightarrow> return (res\<lparr>error := Some ''Could not find URL input field''\<rparr>)
     | Some el \<Rightarrow>
         bind (find_submit_button env u output_dir el) (\<lambda>submit_button.
         case submit_button of
           None \<Rightarrow> return (res\<lparr>error := Some ''Could not find submit button''\<rparr>)
         | Some button \<Rightarrow>
             bind (submit_url env u output_dir button) (\<lambda>_.
             bind (email_form env u output_dir res) (\<lambda>early.
             case early of
               Some r \<Rightarrow> return r
             | None \<Rightarrow> capture_results env u output_dir res))))"

definition process_url :: "env \<Rightarrow> string \<Rightarrow> string \<Rightarrow> result io" where
  "process_url env u output_dir =
     bind (now env) (\<lambda>ts.
     let res = initial_result u ts in
     try_except (workflow env u output_dir res) is_Exception
       (\<lambda>e. return (res\<lparr>error := Some (''Unexpected error: '' @ str e)\<rparr>)))"

section \<open>\<open>setup_driver\<close>, \<open>cleanup\<close> and \<open>process_csv\<close>\<close>

definition set_driver :: "nat option \<Rightarrow> unit io" where
  \<comment> \<open>\<open>self.driver = d\<close>\<close>
  "set_driver d = (\<lambda>s. (Inr (), s\<lparr>driver := d\<rparr>))"

definition setup_driver :: "env \<Rightarrow> bool \<Rightarrow> unit io" where
  "setup_driver env headless =
     try_except
       (bind (perform (answer_elem env) (Chrome headless)) (\<lambda>handle.
        bind (set_driver (Some handle)) (\<lambda>_.
        perform (answer_unit env) (SetPageLoadTimeout 60))))
       is_WebDriverException (\<lambda>e. raise e)"

definition cleanup :: "unit io" where
  \<comment> \<open>\<open>quit\<close> of Selenium's Chrome driver swallows its own errors; it is taken to return\<close>
  "cleanup =
     (\<lambda>s. case driver s of
            None \<Rightarrow> (Inr (), s)
          | Some handle \<Rightarrow> (Inr (), s\<lparr>driver := None, hist := hist s @ [(Quit, True)]\<rparr>))"

text \<open>
  The loop \<open>for url in tqdm(urls)\<close> with its three accumulators \<open>results\<close>, \<open>successful\<close>
  and \<open>failed\<close>.
\<close>

fun process_urls ::
  "env \<Rightarrow> string \<Rightarrow> string list \<Rightarrow> result list \<times> string list \<times> string list
     \<Rightarrow> (result list \<times> string list \<times> string list) io" where
  "process_urls env screenshots_dir [] acc = return acc"
| "process_urls env screenshots_dir (u # rest) (results, successful, failed) =
     bind (process_url env u screenshots_dir) (\<lambda>r.
     let acc' = (results @ [r],
                 if status r = Success then successful @ [u] else successful,
                 if status r = Success then failed else failed @ [u]) in
     bind (sleep env 2) (\<lambda>_.
     process_urls env screenshots_dir rest acc'))"

definition batch :: "env \<Rightarrow> bool \<Rightarrow> string \<Rightarrow> string \<Rightarrow> (string list \<times> string list) io" where
  \<comment> \<open>the body of the \<open>try\<close> of \<open>process_csv\<close>, lines 390 to 434\<close>
  "batch env headless csv_path output_dir =
     bind (read_csv env csv_path) (\<lambda>df.
     case df of
       [] \<Rightarrow> raise (Exn ValueError ''CSV file has no columns'')
     | urls # _ \<Rightarrow>
         if urls = [] then return ([], [])
         else
           bind (setup_driver env headless) (\<lambda>_.
           bind (process_urls env (joinpath output_dir ''screenshots'') urls ([], [], []))
             (\<lambda>(results, successful, failed).
           bind (to_csv env (joinpath output_dir ''results.csv'') results) (\<lambda>_.
           return (successful, failed)))))"

definition process_csv :: "env \<Rightarrow> bool \<Rightarrow> string \<Rightarrow> string \<Rightarrow> (string list \<times> string list) io" where
  "process_csv env headless csv_path output_dir =
     bind (mkdir env (joinpath output_dir ''screenshots'')) (\<lambda>_.
     try_finally
       (try_except (batch env headless csv_path output_dir) is_Exception (\<lambda>e. raise e))
       cleanup)"

section \<open>\<open>create_zip\<close>\<close>

text \<open>
  A path is its list of components.  The directory that \<open>os.walk\<close> reads is a tree of
  named files and directories; with the default \<open>zip_path\<close> the archive itself is created
  in the parent directory, outside that tree.
\<close>

type_synonym path = "string list"

datatype fsnode = File string | Dir string "fsnode list"

fun node_name :: "fsnode \<Rightarrow> string" where
  "node_name (File name) = name"
| "node_name (Dir name entries) = name"

fun is_dir :: "fsnode \<Rightarrow> bool" where
  "is_dir (File name) = False"
| "is_dir (Dir name entries) = True"

definition os_join :: "path \<Rightarrow> string \<Rightarrow> path" where
  "os_join root name = root @ [name]"

definition parent :: "path \<Rightarrow> path" where
  \<comment> \<open>\<open>Path.parent\<close>; the root is its own parent\<close>
  "parent p = butlast p"

fun common_prefix :: "path \<Rightarrow> path \<Rightarrow> path" where
  "common_prefix (x # xs) (y # ys) = (if x = y then x # common_prefix xs ys else [])"
| "common_prefix xs ys = []"

definition relpath :: "path \<Rightarrow> path \<Rightarrow> path" where
  \<comment> \<open>\<open>os.path.relpath(p, start)\<close> on absolute, normalised paths\<close>
  "relpath p start =
     (let i = length (common_prefix start p);
          rel = replicate (length start - i) ''..'' @ drop i p
      in if rel = [] then [''.''] else rel)"

text \<open>
  \<open>os.walk(root)\<close>, top-down: one triple \<open>(root, dirs, files)\<close> for the directory and then
  the triples of each subdirectory.  Walking something that is not a directory yields
  nothing.
\<close>

fun walk :: "path \<Rightarrow> fsnode \<Rightarrow> (path \<times> string list \<times> string list) list" where
  "walk root (File name) = []"
| "walk root (Dir name entries) =
     (root, map node_name (filter is_dir entries),
           map node_name (filter (\<lambda>e. \<not> is_dir e) entries))
     # concat (map (\<lambda>e. walk (os_join root (node_name e)) e) (filter is_dir entries))"

text \<open>
  \<open>create_zip\<close> with \<open>zip_path=None\<close>.  The value is the archive's contents: one pair
  \<open>(file_path, arcname)\<close> for every call \<open>zipf.write(file_path, arcname)\<close>, in order.
\<close>

definition create_zip :: "path \<Rightarrow> fsnode \<Rightarrow> (path \<times> path) list" where
  "create_zip output_path tree =
     concat (map (\<lambda>(root, dirs, files).
                    map (\<lambda>file. let file_path = os_join root file;
                                    arcname = relpath file_path (parent output_path)
                                in (file_path, arcname)) files)
                 (walk output_path tree))"

text \<open>
  What is under a directory, independently of the walk: a relative path names a file when
  following it component by component ends at a file.  A file system never holds two
  entries of one name in a directory.
\<close>

fun lookup :: "fsnode \<Rightarrow> path \<Rightarrow> fsnode option" where
  "lookup node [] = Some node"
| "lookup (File name) (x # p) = None"
| "lookup (Dir name entries) (x # p) =
     (case find (\<lambda>e. node_name e = x) entries of None \<Rightarrow> None | Some e \<Rightarrow> lookup e p)"

definition is_file_at :: "fsnode \<Rightarrow> path \<Rightarrow> bool" where
  "is_file_at tree p = (case lookup tree p of Some (File name) \<Rightarrow> True | _ \<Rightarrow> False)"

fun wf_tree :: "fsnode \<Rightarrow> bool" where
  "wf_tree (File name) = True"
| "wf_tree (Dir name entries) =
     (distinct (map node_name entries) \<and> list_all wf_tree entries)"

text \<open>The relative paths of the files under a node, in the order in which the walk meets them.\<close>

fun files_under :: "fsnode \<Rightarrow> path list" where
  "files_under (File name) = []"
| "files_under (Dir name entries) =
     map (\<lambda>e. [node_name e]) (filter (\<lambda>e. \<not> is_dir e) entries)
     @ concat (map (\<lambda>e. map ((#) (node_name e)) (files_under e)) (filter is_dir entries))"

definition sample_tree :: fsnode where
  "sample_tree =
     Dir ''run_20240101_000000''
       [Dir ''screenshots'' [File ''example-com-a.png'', File ''debug_example-com-a_initial.png''],
        File ''results.csv'',
        Dir ''empty'' []]"

section \<open>Facts about runs\<close>



text \<open>Postconditions on what a statement returns, on what it raises, and on the state.\<close>

definition returns_only :: "('a \<Rightarrow> bool) \<Rightarrow> 'a io \<Rightarrow> bool" where
  "returns_only P m = (\<forall>s x s'. m s = (Inr x, s') \<longrightarrow> P x)"

definition raises_only :: "(exn \<Rightarrow> bool) \<Rightarrow> 'a io \<Rightarrow> bool" where
  "raises_only P m = (\<forall>s e s'. m s = (Inl e, s') \<longrightarrow> P e)"








text \<open>
  Assumptions on the collaborators under which a batch runs to its end: nothing raises
  \<open>KeyboardInterrupt\<close>, and the calls made outside \<open>process_url\<close> return.
\<close>

definition no_interrupt :: "env \<Rightarrow> bool" where
  "no_interrupt env =
     ((\<forall>h c e. answer_unit env h c = Inl e \<longrightarrow> is_Exception e)
      \<and> (\<forall>h c e. answer_elem env h c = Inl e \<longrightarrow> is_Exception e)
      \<and> (\<forall>h c e. answer_bool env h c = Inl e \<longrightarrow> is_Exception e)
      \<and> (\<forall>h c e. answer_int env h c = Inl e \<longrightarrow> is_Exception e)
      \<and> (\<forall>u e. urlparse env u = Inl e \<longrightarrow> is_Exception e))"

definition batch_services_ok :: "env \<Rightarrow> bool" where
  "batch_services_ok env =
     ((\<forall>h headless. \<exists>handle. answer_elem env h (Chrome headless) = Inr handle)
      \<and> (\<forall>h dir. answer_unit env h (Mkdir dir) = Inr ())
      \<and> (\<forall>h t. answer_unit env h (SetPageLoadTimeout t) = Inr ())
      \<and> (\<forall>h. answer_unit env h (Sleep 2) = Inr ())
      \<and> (\<forall>h file rows. answer_unit env h (ToCsv file rows) = Inr ()))"

text \<open>The results \<open>process_url\<close> can return, relative to the dict it starts from.\<close>

definition step_messages :: "string list" where
  "step_messages =
     [''Could not find URL input field'', ''Could not find submit button'',
      ''Could not find email input field'', ''Could not find final submit button'']"

definition failure_of :: "result \<Rightarrow> result \<Rightarrow> bool" where
  "failure_of res r =
     (\<exists>msg. r = res\<lparr>error := Some msg\<rparr> \<and>
        (msg \<in> set step_messages
         \<or> (\<exists>e. is_Exception e \<and> msg = ''Failed to handle email form: '' @ str e)
         \<or> (\<exists>e. is_Exception e \<and> msg = ''Unexpected error: '' @ str e)))"

definition success_of :: "string \<Rightarrow> result \<Rightarrow> result \<Rightarrow> bool" where
  "success_of output_dir res r =
     (\<exists>name. r = res\<lparr>status := Success,
                      screenshot_path := Some (joinpath output_dir (name @ ''.png''))\<rparr>)"

text \<open>
  The four mandatory selector loops, and what it means that the workflow, started in
  state \<open>s\<close>, reaches a loop and leaves it in state \<open>s'\<close> with its variable still \<open>None\<close>.
\<close>

datatype step = UrlInput | SubmitButton | EmailInput | FinalSubmit



section \<open>Sample collaborators\<close>

text \<open>
  Small stand-ins for the two library functions and for a page, on which the model runs
  at concrete inputs.  \<open>simple_urlparse\<close> splits \<open>scheme://netloc/path?query#fragment\<close> and
  raises on an unmatched bracket in the host, as \<open>urlparse\<close> does; \<open>simple_slugify\<close>
  keeps lower-case letters and digits and turns every other character into a hyphen.
\<close>

definition split_first :: "char \<Rightarrow> string \<Rightarrow> string \<times> string" where
  "split_first c text = (takeWhile (\<lambda>x. x \<noteq> c) text, drop 1 (dropWhile (\<lambda>x. x \<noteq> c) text))"

fun split_scheme :: "string \<Rightarrow> string \<Rightarrow> string \<times> string" where
  "split_scheme seen [] = ([], seen)"
| "split_scheme seen (c # cs) =
     (if c = CHR '':'' then (if take 2 cs = ''//'' then (seen, cs) else ([], seen @ c # cs))
      else split_scheme (seen @ [c]) cs)"

definition simple_urlparse :: "string \<Rightarrow> exn + parse_result" where
  "simple_urlparse u =
     (let (before_fragment, frag) = split_first (CHR ''#'') u;
          (before_query, q) = split_first (CHR ''?'') before_fragment;
          (sch, rest) = split_scheme [] before_query;
          host = (if take 2 rest = ''//'' then takeWhile (\<lambda>x. x \<noteq> CHR ''/'') (drop 2 rest) else []);
          p = (if take 2 rest = ''//'' then dropWhile (\<lambda>x. x \<noteq> CHR ''/'') (drop 2 rest) else rest)
      in if (CHR ''['' \<in> set host) \<noteq> (CHR '']'' \<in> set host)
         then Inl (Exn ValueError ''Invalid IPv6 URL'')
         else Inr \<lparr>scheme = sch, netloc = host, path = p, params = [], query = q, fragment = frag\<rparr>)"

definition simple_slugify :: "string \<Rightarrow> string" where
  "simple_slugify text =
     map (\<lambda>c. if c \<in> set ''abcdefghijklmnopqrstuvwxyz0123456789'' then c else CHR ''-'') text"

definition page_env :: env where
  \<comment> \<open>every call returns; every selector finds element 1, which is displayed\<close>
  "page_env =
     \<lparr>urlparse = simple_urlparse, slugify = simple_slugify,
      answer_unit = (\<lambda>h c. Inr ()), answer_elem = (\<lambda>h c. Inr 1),
      answer_bool = (\<lambda>h c. Inr True), answer_int = (\<lambda>h c. Inr 2000),
      answer_frame = (\<lambda>h c. Inr [[''https://example.com/a'', ''https://example.org'']]),
      answer_str = (\<lambda>h c. ''2024-01-01 00:00:00'')\<rparr>"

definition timed_out :: exn where
  "timed_out = Exn TimeoutException ''timed out''"

definition no_match :: "string list \<Rightarrow> event list \<Rightarrow> call \<Rightarrow> exn + nat" where
  \<comment> \<open>a page on which the three-second waits for the given selectors time out\<close>
  "no_match selectors h c =
     (case c of
        WaitUntil t cond b selector \<Rightarrow>
          if t = 3 \<and> selector \<in> set selectors then Inl timed_out else Inr 1
      | _ \<Rightarrow> Inr 1)"

definition hidden_input_env :: env where
  \<comment> \<open>the only element matching a URL selector is element 7, present but not displayed\<close>
  "hidden_input_env =
     page_env\<lparr>
       answer_elem := (\<lambda>h c.
          if c = WaitUntil 3 presence_of_element_located CSS_SELECTOR ''input[type='text']''
          then Inr 7 else no_match url_selectors h c),
       answer_bool := (\<lambda>h c. Inr (c \<noteq> IsDisplayed 7)),
       answer_unit := (\<lambda>h c.
          if c = Clear 7 then Inl (Exn OtherException ''element not interactable'')
          else Inr ())\<rparr>"

definition three_inputs_env :: env where
  \<comment> \<open>the first URL selector matches nothing, the second element 2, the third element 3\<close>
  "three_inputs_env =
     page_env\<lparr>
       answer_elem := (\<lambda>h c.
          if c = WaitUntil 3 presence_of_element_located CSS_SELECTOR ''input[type='text']''
          then Inl timed_out
          else if c = WaitUntil 3 presence_of_element_located CSS_SELECTOR ''input[type='url']''
          then Inr 2 else Inr 3)\<rparr>"



definition no_chrome_env :: env where
  \<comment> \<open>the driver cannot be started\<close>
  "no_chrome_env =
     page_env\<lparr>
       answer_elem := (\<lambda>h c.
          case c of Chrome headless \<Rightarrow> Inl (Exn WebDriverException ''chromedriver not found'')
          | _ \<Rightarrow> Inr 1)\<rparr>"


definition empty_csv_env :: env where
  \<comment> \<open>the CSV file has a header and no rows, and no driver could be started\<close>
  "empty_csv_env = no_chrome_env\<lparr>answer_frame := (\<lambda>h c. Inr [[]])\<rparr>"



definition fresh :: state where
  \<comment> \<open>the state after \<open>__init__\<close>\<close>
  "fresh = \<lparr>driver = None, hist = []\<rparr>"

section \<open>Properties of \<open>sanitize_filename\<close>\<close>

lemma page_sanitize:
  "sanitize_filename page_env ''https://example.com/a/b?x=1#top'' fresh
     = (Inr ''example-com-a-b'', fresh)"
  by (simp add: sanitize_filename_def page_env_def simple_urlparse_def simple_slugify_def
      split_first_def replace_def return_def Let_def)



text \<open>
  C7.  \<open>sanitize_filename\<close> is a pure function of the URL: whenever it returns a name, the
  name has at most 100 characters, the state of the object and of the world is left as it
  was, and the same URL gives the same name from every other state.
\<close>

theorem sanitize_filename_pure_bounded:
  "sanitize_filename env u s = (Inr name, s') \<Longrightarrow>
     length name \<le> 100 \<and> s' = s \<and> (\<forall>t. sanitize_filename env u t = (Inr name, t))"
  by (auto simp: sanitize_filename_def return_def raise_def Let_def split: sum.splits if_splits)

theorem sanitize_filename_pure_bounded_witness:
  "sanitize_filename page_env ''https://example.com/a/b?x=1#top'' fresh
     = (Inr ''example-com-a-b'', fresh)
   \<and> length ''example-com-a-b'' \<le> 100
   \<and> (\<forall>t. sanitize_filename page_env ''https://example.com/a/b?x=1#top'' t
          = (Inr ''example-com-a-b'', t))"
  using sanitize_filename_pure_bounded
    [of page_env "''https://example.com/a/b?x=1#top''" fresh "''example-com-a-b''" fresh]
    page_sanitize
  by simp



section \<open>Rules for the postconditions\<close>

lemma returns_only_return: "P x \<Longrightarrow> returns_only P (return x)"
  by (simp add: returns_only_def return_def)

lemma returns_only_bind: "(\<And>x. returns_only P (f x)) \<Longrightarrow> returns_only P (bind m f)"
  by (auto simp: returns_only_def bind_def split: prod.splits sum.splits)

lemma returns_only_try_except:
  "returns_only P m \<Longrightarrow> (\<And>e. catches e \<Longrightarrow> returns_only P (h e)) \<Longrightarrow>
     returns_only P (try_except m catches h)"
  by (auto simp: returns_only_def try_except_def split: prod.splits sum.splits if_splits)

lemma returns_only_mono: "returns_only P m \<Longrightarrow> (\<And>x. P x \<Longrightarrow> Q x) \<Longrightarrow> returns_only Q m"
  by (auto simp: returns_only_def)

lemma returns_only_bind2:
  assumes "returns_only Q m" and "\<And>x. Q x \<Longrightarrow> returns_only P (f x)"
  shows "returns_only P (bind m f)"
  unfolding returns_only_def
proof (intro allI impI)
  fix s x s'
  assume "bind m f s = (Inr x, s')"
  then obtain y t where "m s = (Inr y, t)" and "f y t = (Inr x, s')"
    by (auto simp: bind_def split: prod.splits sum.splits)
  with assms show "P x"
    unfolding returns_only_def by blast
qed

lemma raises_only_return: "raises_only P (return x)"
  by (simp add: raises_only_def return_def)

lemma raises_only_bind:
  "raises_only P m \<Longrightarrow> (\<And>x. raises_only P (f x)) \<Longrightarrow> raises_only P (bind m f)"
  by (fastforce simp: raises_only_def bind_def split: prod.splits sum.splits)

lemma raises_only_try_except:
  "raises_only P m \<Longrightarrow> (\<And>e. raises_only P (h e)) \<Longrightarrow> raises_only P (try_except m catches h)"
  by (fastforce simp: raises_only_def try_except_def split: prod.splits sum.splits if_splits)

lemma raises_only_caught:
  "(\<And>e. raises_only (\<lambda>e. \<not> catches e) (h e)) \<Longrightarrow>
     raises_only (\<lambda>e. \<not> catches e) (try_except m catches h)"
  by (fastforce simp: raises_only_def try_except_def split: prod.splits sum.splits if_splits)

lemma raises_only_mono: "raises_only P m \<Longrightarrow> (\<And>e. P e \<Longrightarrow> Q e) \<Longrightarrow> raises_only Q m"
  by (auto simp: raises_only_def)

lemmas raises_only_intros = raises_only_bind raises_only_try_except raises_only_return

lemma now_returns:
  "now env s = (Inr (answer_str env (hist s) Now), s\<lparr>hist := hist s @ [(Now, True)]\<rparr>)"
  by (simp add: now_def perform_def)

lemma raises_only_now: "raises_only P (now env)"
  by (simp add: raises_only_def now_returns)

section \<open>What \<open>process_url\<close> returns and raises\<close>

lemma failure_of_step: "msg \<in> set step_messages \<Longrightarrow> failure_of res (res\<lparr>error := Some msg\<rparr>)"
  unfolding failure_of_def by blast

lemma failure_of_email:
  "is_Exception e \<Longrightarrow>
     failure_of res (res\<lparr>error := Some (''Failed to handle email form: '' @ str e)\<rparr>)"
  unfolding failure_of_def by blast

lemma failure_of_unexpected:
  "is_Exception e \<Longrightarrow> failure_of res (res\<lparr>error := Some (''Unexpected error: '' @ str e)\<rparr>)"
  unfolding failure_of_def by blast

lemma step_messages_mem:
  "''Could not find URL input field'' \<in> set step_messages"
  "''Could not find submit button'' \<in> set step_messages"
  "''Could not find email input field'' \<in> set step_messages"
  "''Could not find final submit button'' \<in> set step_messages"
  by (simp_all add: step_messages_def)

lemma email_form_returns:
  "returns_only (\<lambda>early. case early of None \<Rightarrow> True | Some r \<Rightarrow> failure_of res r)
     (email_form env u output_dir res)"
  unfolding email_form_def email_steps_def
  apply (rule returns_only_try_except)
   apply (rule returns_only_bind)
   apply (simp split: option.split, intro conjI allI impI)
    apply (rule returns_only_return, simp add: failure_of_step step_messages_mem)
   apply (rule returns_only_bind)
   apply (simp split: option.split, intro conjI allI impI)
    apply (rule returns_only_return, simp add: failure_of_step step_messages_mem)
   apply (rule returns_only_bind)
   apply (rule returns_only_return, simp)
  apply (rule returns_only_return, simp only: option.case, erule failure_of_email)
  done

lemma capture_results_returns:
  "returns_only (success_of output_dir res) (capture_results env u output_dir res)"
  unfolding capture_results_def Let_def
  by (intro returns_only_bind returns_only_return) (auto simp: success_of_def)

lemma workflow_returns:
  "returns_only (\<lambda>r. failure_of res r \<or> success_of output_dir res r)
     (workflow env u output_dir res)"
  unfolding workflow_def
  apply (rule returns_only_bind)
  apply (simp split: option.split, intro conjI allI impI)
   apply (rule returns_only_return, simp add: failure_of_step step_messages_mem)
  apply (rule returns_only_bind)
  apply (simp split: option.split, intro conjI allI impI)
   apply (rule returns_only_return, simp add: failure_of_step step_messages_mem)
  apply (rule returns_only_bind)
  apply (rule returns_only_bind2 [OF email_form_returns])
  apply (simp split: option.splits)
   apply (rule returns_only_mono [OF capture_results_returns], simp)
  apply (rule returns_only_return, simp)
  done

lemma process_url_returns:
  "returns_only
     (\<lambda>r. \<exists>ts. failure_of (initial_result u ts) r \<or> success_of output_dir (initial_result u ts) r)
     (process_url env u output_dir)"
  unfolding process_url_def Let_def
  apply (rule returns_only_bind)
  apply (rule returns_only_try_except)
   apply (rule returns_only_mono [OF workflow_returns], blast)
  apply (rule returns_only_return)
  apply (blast intro: failure_of_unexpected)
  done

lemma process_url_no_Exception:
  "raises_only (\<lambda>e. \<not> is_Exception e) (process_url env u output_dir)"
  unfolding process_url_def Let_def
  by (intro raises_only_bind raises_only_now raises_only_caught raises_only_return)

lemma failure_of_fields:
  "failure_of (initial_result u ts) r \<Longrightarrow>
     url r = u \<and> status r = Failed \<and> screenshot_path r = None \<and>
     (\<exists>msg. error r = Some msg \<and>
        (msg \<in> set step_messages
         \<or> (\<exists>detail. msg = ''Failed to handle email form: '' @ detail)
         \<or> (\<exists>detail. msg = ''Unexpected error: '' @ detail)))"
  unfolding failure_of_def initial_result_def by auto

lemma success_of_fields:
  "success_of output_dir (initial_result u ts) r \<Longrightarrow>
     url r = u \<and> status r = Success \<and> error r = None \<and>
     (\<exists>name. screenshot_path r = Some (joinpath output_dir (name @ ''.png'')))"
  unfolding success_of_def initial_result_def by auto

lemma not_Exception_iff: "\<not> is_Exception e \<longleftrightarrow> (\<exists>detail. e = Exn KeyboardInterrupt detail)"
  by (cases e) (simp add: is_Exception_def)

lemma process_url_outcome:
  "(\<exists>r s'. process_url env u output_dir s = (Inr r, s') \<and>
       (\<exists>ts. failure_of (initial_result u ts) r \<or> success_of output_dir (initial_result u ts) r))
   \<or> (\<exists>detail s'. process_url env u output_dir s = (Inl (Exn KeyboardInterrupt detail), s'))"
proof (cases "process_url env u output_dir s")
  case (Pair out s')
  show ?thesis
  proof (cases out)
    case (Inl e)
    with Pair process_url_no_Exception [of env u output_dir] have "\<not> is_Exception e"
      by (auto simp: raises_only_def)
    with Pair Inl show ?thesis by (auto simp: not_Exception_iff)
  next
    case (Inr r)
    with Pair process_url_returns [of u output_dir env] show ?thesis
      by (auto simp: returns_only_def)
  qed
qed


text \<open>
  C4.  Every Result that \<open>process_url\<close> returns has a screenshot path when its status is
  success and an error message when its status is failed.
\<close>

theorem process_url_result_invariant:
  assumes "process_url env u output_dir s = (Inr r, s')"
  shows "(status r = Success \<longrightarrow> screenshot_path r \<noteq> None)
     \<and> (status r = Failed \<longrightarrow> error r \<noteq> None)"
proof -
  from assms process_url_returns [of u output_dir env]
  obtain ts where "failure_of (initial_result u ts) r \<or> success_of output_dir (initial_result u ts) r"
    unfolding returns_only_def by blast
  then show ?thesis
  proof
    assume "failure_of (initial_result u ts) r"
    from failure_of_fields [OF this] show ?thesis by auto
  next
    assume "success_of output_dir (initial_result u ts) r"
    from success_of_fields [OF this] show ?thesis by auto
  qed
qed

section \<open>Runs on the sample collaborators\<close>

lemmas io_defs = return_def raise_def bind_def try_except_def try_finally_def perform_def

lemmas call_defs = now_def driver_get_def wait_until_def is_displayed_def clear_def send_keys_def
  click_def save_screenshot_def execute_script_def set_window_size_def sleep_def mkdir_def
  read_csv_def to_csv_def

lemmas workflow_defs = process_url_def workflow_def find_url_input_def find_submit_button_def
  submit_url_def find_email_input_def find_final_submit_def submit_email_def email_steps_def
  email_form_def capture_results_def debug_screenshot_def sanitize_filename_def
  initial_result_def joinpath_def replace_def url_selectors_def button_selectors_def
  email_selectors_def final_submit_selectors_def popup_selector_def css_only_def
  xpath_or_css_def base_url_def email_def is_Exception_def not_located_def Let_def

lemmas sample_defs = page_env_def simple_urlparse_def simple_slugify_def split_first_def
  fresh_def timed_out_def no_match_def






lemma page_run:
  "fst (process_url page_env ''https://example.com/a'' ''out'' fresh) =
     Inr \<lparr>url = ''https://example.com/a'', status = Success,
          screenshot_path = Some ''out/example-com-a.png'', error = None,
          timestamp = ''2024-01-01 00:00:00''\<rparr>"
  by (simp add: io_defs call_defs workflow_defs sample_defs)

theorem process_url_result_invariant_witness:
  "process_url page_env ''https://example.com/a'' ''out'' fresh =
     (Inr \<lparr>url = ''https://example.com/a'', status = Success,
          screenshot_path = Some ''out/example-com-a.png'', error = None,
          timestamp = ''2024-01-01 00:00:00''\<rparr>,
      snd (process_url page_env ''https://example.com/a'' ''out'' fresh))
   \<and> screenshot_path \<lparr>url = ''https://example.com/a'', status = Success,
          screenshot_path = Some ''out/example-com-a.png'', error = None,
          timestamp = ''2024-01-01 00:00:00''\<rparr> \<noteq> None"
proof -
  have run: "process_url page_env ''https://example.com/a'' ''out'' fresh =
     (Inr \<lparr>url = ''https://example.com/a'', status = Success,
          screenshot_path = Some ''out/example-com-a.png'', error = None,
          timestamp = ''2024-01-01 00:00:00''\<rparr>,
      snd (process_url page_env ''https://example.com/a'' ''out'' fresh))"
    using page_run by (simp add: prod_eq_iff)
  from process_url_result_invariant [OF run] run show ?thesis by simp
qed


section \<open>Resolution failures\<close>















section \<open>What the selector loop returns\<close>

text \<open>
  One round of the loop, case by case: a displayed element ends the loop; a wait that
  times out leaves the variable as it was; an element that is not displayed stays in the
  variable while the loop goes on.
\<close>

lemma selector_loop_displayed:
  assumes "wait_until env 3 cond (by_of selector) selector s = (Inr el, s1)"
    and "is_displayed env el s1 = (Inr True, s2)"
  shows "selector_loop env cond by_of (selector # rest) found s = (Inr (Some el), s2)"
  using assms by (simp add: bind_def try_except_def return_def)

lemma selector_loop_timeout:
  assumes "wait_until env 3 cond (by_of selector) selector s = (Inl e, s1)"
    and "not_located e"
  shows "selector_loop env cond by_of (selector # rest) found s
           = selector_loop env cond by_of rest found s1"
  using assms by (simp add: bind_def try_except_def return_def)

lemma selector_loop_hidden:
  assumes "wait_until env 3 cond (by_of selector) selector s = (Inr el, s1)"
    and "is_displayed env el s1 = (Inr False, s2)"
  shows "selector_loop env cond by_of (selector # rest) found s
           = selector_loop env cond by_of rest (Some el) s2"
  using assms by (simp add: bind_def try_except_def return_def)

lemma selector_loop_exhausted:
  "selector_loop env cond by_of [] found s = (Inr found, s)"
  by (simp add: return_def)

lemma first_displayed_wins:
  "fst (selector_loop three_inputs_env presence_of_element_located css_only url_selectors
          None fresh) = Inr (Some 2)"
  by (simp add: io_defs call_defs workflow_defs sample_defs three_inputs_env_def)

text \<open>
  C2 at a page whose only match for the URL selectors is an element that is present but
  not displayed.  No selector yields a displayed element, yet the loop does not end with
  \<open>None\<close>: its variable still holds the hidden element 7, so \<open>process_url\<close> goes on to
  \<open>clear\<close> it and ends with \<open>Unexpected error\<close> instead of \<open>Could not find URL input field\<close>.
\<close>

theorem hidden_element_is_returned:
  "fst (selector_loop hidden_input_env presence_of_element_located css_only url_selectors
          None fresh) = Inr (Some 7)
   \<and> fst (is_displayed hidden_input_env 7
            (snd (selector_loop hidden_input_env presence_of_element_located css_only
                    url_selectors None fresh))) = Inr False
   \<and> fst (process_url hidden_input_env ''https://example.com/a'' ''out'' fresh) =
       Inr \<lparr>url = ''https://example.com/a'', status = Failed, screenshot_path = None,
            error = Some ''Unexpected error: element not interactable'',
            timestamp = ''2024-01-01 00:00:00''\<rparr>"
  by (simp add: io_defs call_defs workflow_defs sample_defs hidden_input_env_def)


section \<open>Invariants of the state\<close>















section \<open>\<open>process_csv\<close>\<close>


















lemmas batch_defs = process_csv_def batch_def setup_driver_def set_driver_def cleanup_def
  is_WebDriverException_def



text \<open>
  C9.  When the first column of the CSV file is empty, \<open>process_csv\<close> returns two empty
  lists.  Its only calls are the \<open>mkdir\<close> and the read of the file: the driver is never
  set up.
\<close>

theorem process_csv_empty:
  assumes "driver s = None"
    and "answer_unit env (hist s) (Mkdir (joinpath output_dir ''screenshots'')) = Inr ()"
    and "answer_frame env (hist s @ [(Mkdir (joinpath output_dir ''screenshots''), True)])
           (ReadCsv csv_path) = Inr ([] # columns)"
  shows "process_csv env headless csv_path output_dir s =
     (Inr ([], []),
      s\<lparr>hist := hist s @ [(Mkdir (joinpath output_dir ''screenshots''), True),
                          (ReadCsv csv_path, True)]\<rparr>)"
  using assms
  by (simp add: process_csv_def batch_def bind_def try_finally_def try_except_def return_def
      mkdir_def read_csv_def perform_def cleanup_def)

theorem process_csv_empty_witness:
  "driver fresh = None
   \<and> answer_unit empty_csv_env (hist fresh) (Mkdir (joinpath ''out'' ''screenshots'')) = Inr ()
   \<and> answer_frame empty_csv_env (hist fresh @ [(Mkdir (joinpath ''out'' ''screenshots''), True)])
        (ReadCsv ''urls.csv'') = Inr ([] # [])
   \<and> process_csv empty_csv_env True ''urls.csv'' ''out'' fresh =
       (Inr ([], []),
        \<lparr>driver = None,
         hist = [(Mkdir ''out/screenshots'', True), (ReadCsv ''urls.csv'', True)]\<rparr>)
   \<and> (\<forall>h. answer_elem empty_csv_env h (Chrome True)
          = Inl (Exn WebDriverException ''chromedriver not found''))"
proof -
  have d: "driver fresh = None" by (simp add: fresh_def)
  have m: "answer_unit empty_csv_env (hist fresh) (Mkdir (joinpath ''out'' ''screenshots'')) = Inr ()"
    by (simp add: empty_csv_env_def no_chrome_env_def page_env_def)
  have r: "answer_frame empty_csv_env (hist fresh @ [(Mkdir (joinpath ''out'' ''screenshots''), True)])
        (ReadCsv ''urls.csv'') = Inr ([] # [])"
    by (simp add: empty_csv_env_def no_chrome_env_def page_env_def)
  have c: "\<forall>h. answer_elem empty_csv_env h (Chrome True)
          = Inl (Exn WebDriverException ''chromedriver not found'')"
    by (simp add: empty_csv_env_def no_chrome_env_def page_env_def)
  from process_csv_empty [OF d m r, of True] d m r c show ?thesis
    by (simp add: fresh_def joinpath_def)
qed

section \<open>One Result per URL\<close>

lemma calls_raise_Exception:
  assumes "no_interrupt env"
  shows "raises_only is_Exception (driver_get env a)"
    and "raises_only is_Exception (wait_until env t cond b selector)"
    and "raises_only is_Exception (is_displayed env el)"
    and "raises_only is_Exception (clear env el)"
    and "raises_only is_Exception (send_keys env el text)"
    and "raises_only is_Exception (click env el)"
    and "raises_only is_Exception (save_screenshot env file)"
    and "raises_only is_Exception (execute_script env script)"
    and "raises_only is_Exception (set_window_size env w ht)"
    and "raises_only is_Exception (sleep env n)"
    and "raises_only is_Exception (sanitize_filename env u)"
  using assms
  by (auto simp: no_interrupt_def call_defs sanitize_filename_def raises_only_def perform_def
      return_def raise_def Let_def split: sum.splits)

lemma selector_loop_raises:
  assumes "no_interrupt env"
  shows "raises_only is_Exception (selector_loop env cond by_of selectors found)"
proof (induction selectors arbitrary: found)
  case Nil
  show ?case by (simp add: raises_only_return)
next
  case (Cons selector rest)
  show ?case
    apply simp
    apply (intro raises_only_intros calls_raise_Exception [OF assms])
    apply (simp split: prod.split add: raises_only_return Cons.IH)
    done
qed

lemma debug_screenshot_raises:
  "no_interrupt env \<Longrightarrow> raises_only is_Exception (debug_screenshot env u output_dir stage)"
  unfolding debug_screenshot_def by (intro raises_only_intros calls_raise_Exception)

lemma workflow_raises:
  assumes "no_interrupt env"
  shows "raises_only is_Exception (workflow env u output_dir res)"
  unfolding workflow_def find_url_input_def find_submit_button_def submit_url_def
    email_form_def email_steps_def find_email_input_def find_final_submit_def submit_email_def
    capture_results_def Let_def
  by (intro raises_only_intros calls_raise_Exception [OF assms] selector_loop_raises [OF assms]
        debug_screenshot_raises [OF assms]
       | simp split: option.split | intro conjI allI impI)+

lemma process_url_total:
  assumes "no_interrupt env"
  shows "\<exists>r s'. process_url env u output_dir s = (Inr r, s') \<and> url r = u"
proof -
  from process_url_outcome [of env u output_dir s]
  show ?thesis
  proof
    assume "\<exists>r s'. process_url env u output_dir s = (Inr r, s') \<and>
       (\<exists>ts. failure_of (initial_result u ts) r \<or> success_of output_dir (initial_result u ts) r)"
    then show ?thesis
      using failure_of_fields success_of_fields by blast
  next
    assume "\<exists>detail s'. process_url env u output_dir s = (Inl (Exn KeyboardInterrupt detail), s')"
    then obtain detail s' where run: "process_url env u output_dir s = (Inl (Exn KeyboardInterrupt detail), s')"
      by blast
    obtain ts s1 where n: "now env s = (Inr ts, s1)"
      by (simp add: now_returns)
    from run n have "workflow env u output_dir (initial_result u ts) s1
        = (Inl (Exn KeyboardInterrupt detail), s')"
      by (auto simp: process_url_def bind_def try_except_def return_def Let_def
          split: prod.splits sum.splits if_splits)
    with workflow_raises [OF assms, of u output_dir "initial_result u ts"]
    have "is_Exception (Exn KeyboardInterrupt detail)"
      unfolding raises_only_def by blast
    then show ?thesis by (simp add: is_Exception_def)
  qed
qed

lemma process_urls_accumulates:
  assumes "no_interrupt env" and "\<forall>h. answer_unit env h (Sleep 2) = Inr ()"
  shows "\<exists>rs s'. process_urls env screenshots_dir urls (results, successful, failed) s
           = (Inr (results @ rs,
                   successful @ map url (filter (\<lambda>r. status r = Success) rs),
                   failed @ map url (filter (\<lambda>r. status r \<noteq> Success) rs)), s')
         \<and> map url rs = urls"
proof (induction urls arbitrary: results successful failed s)
  case Nil
  show ?case by (simp add: return_def)
next
  case (Cons u rest)
  obtain r s1 where item: "process_url env u screenshots_dir s = (Inr r, s1)" and u: "url r = u"
    using process_url_total [OF assms(1)] by blast
  obtain s2 where pause: "sleep env 2 s1 = (Inr (), s2)"
    using assms(2) by (simp add: sleep_def perform_def)
  from Cons.IH [of "results @ [r]"
      "if status r = Success then successful @ [u] else successful"
      "if status r = Success then failed else failed @ [u]" s2]
  obtain rs s' where rest:
    "process_urls env screenshots_dir rest
       (results @ [r], if status r = Success then successful @ [u] else successful,
        if status r = Success then failed else failed @ [u]) s2
     = (Inr ((results @ [r]) @ rs,
             (if status r = Success then successful @ [u] else successful)
               @ map url (filter (\<lambda>r. status r = Success) rs),
             (if status r = Success then failed else failed @ [u])
               @ map url (filter (\<lambda>r. status r \<noteq> Success) rs)), s')"
    and urls: "map url rs = rest"
    by blast
  have step: "process_urls env screenshots_dir (u # rest) (results, successful, failed) s
      = (Inr (results @ (r # rs),
              successful @ map url (filter (\<lambda>r. status r = Success) (r # rs)),
              failed @ map url (filter (\<lambda>r. status r \<noteq> Success) (r # rs))), s')"
    using item pause rest u by (simp add: bind_def Let_def)
  have maps: "map url (r # rs) = u # rest"
    using u urls by simp
  show ?case
    by (rule exI [of _ "r # rs"], rule exI [of _ s'], rule conjI, rule step, rule maps)
qed

text \<open>
  C1, as amended.  When no call raises \<open>KeyboardInterrupt\<close> and the calls around the item
  loop return (directory, CSV read, driver start, the pause between items, manifest
  write), \<open>process_csv\<close> on a non-empty list of URLs returns, the manifest it writes has
  exactly one Result per URL in input order, the two returned lists are the URLs of the
  successful and of the other Results, and their lengths add up to the number of URLs.
\<close>

theorem process_csv_one_result_per_url:
  assumes "no_interrupt env" and "batch_services_ok env"
    and "\<forall>h. answer_frame env h (ReadCsv csv_path) = Inr (urls # columns)"
    and "urls \<noteq> []"
  shows "\<exists>results s'.
     process_csv env headless csv_path output_dir s
       = (Inr (map url (filter (\<lambda>r. status r = Success) results),
               map url (filter (\<lambda>r. status r \<noteq> Success) results)), s')
     \<and> (ToCsv (joinpath output_dir ''results.csv'') results, True) \<in> set (hist s')
     \<and> map url results = urls
     \<and> length results = length urls
     \<and> length (filter (\<lambda>r. status r = Success) results)
         + length (filter (\<lambda>r. status r \<noteq> Success) results) = length urls"
proof -
  obtain s1 where mk: "mkdir env (joinpath output_dir ''screenshots'') s = (Inr (), s1)"
    using assms(2) by (simp add: batch_services_ok_def mkdir_def perform_def)
  obtain s2 where rd: "read_csv env csv_path s1 = (Inr (urls # columns), s2)"
    using assms(3) by (simp add: read_csv_def perform_def)
  obtain handle where chrome: "answer_elem env (hist s2) (Chrome headless) = Inr handle"
    using assms(2) unfolding batch_services_ok_def by blast
  obtain s3 where started: "setup_driver env headless s2 = (Inr (), s3)"
    using assms(2) chrome
    by (simp add: batch_services_ok_def setup_driver_def try_except_def bind_def perform_def
        set_driver_def)
  have pause: "\<forall>h. answer_unit env h (Sleep 2) = Inr ()"
    using assms(2) by (simp add: batch_services_ok_def)
  from process_urls_accumulates [OF assms(1) pause, of "joinpath output_dir ''screenshots''" urls "[]" "[]" "[]" s3]
  obtain results s4 where loop:
    "process_urls env (joinpath output_dir ''screenshots'') urls ([], [], []) s3
       = (Inr (results, map url (filter (\<lambda>r. status r = Success) results),
               map url (filter (\<lambda>r. status r \<noteq> Success) results)), s4)"
    and urls: "map url results = urls"
    by auto
  define s5 where "s5 = s4\<lparr>hist := hist s4 @ [(ToCsv (joinpath output_dir ''results.csv'') results, True)]\<rparr>"
  have wr: "to_csv env (joinpath output_dir ''results.csv'') results s4 = (Inr (), s5)"
    using assms(2) by (simp add: batch_services_ok_def to_csv_def perform_def s5_def)
  obtain s6 where fin: "cleanup s5 = (Inr (), s6)" and grows: "set (hist s5) \<subseteq> set (hist s6)"
    by (cases "driver s5") (auto simp: cleanup_def)
  have run: "process_csv env headless csv_path output_dir s
       = (Inr (map url (filter (\<lambda>r. status r = Success) results),
               map url (filter (\<lambda>r. status r \<noteq> Success) results)), s6)"
    using mk rd started loop wr fin assms(4)
    by (simp add: process_csv_def batch_def bind_def try_finally_def try_except_def return_def)
  have written: "(ToCsv (joinpath output_dir ''results.csv'') results, True) \<in> set (hist s6)"
    using grows by (auto simp: s5_def)
  have len: "length results = length urls"
    using urls by (metis length_map)
  have "length (filter (\<lambda>r. status r = Success) results)
         + length (filter (\<lambda>r. status r \<noteq> Success) results) = length results"
    by (rule sum_length_filter_compl)
  with run written urls len show ?thesis by auto
qed

theorem process_csv_one_result_per_url_witness:
  "no_interrupt page_env \<and> batch_services_ok page_env
   \<and> (\<forall>h. answer_frame page_env h (ReadCsv ''urls.csv'')
          = Inr ([''https://example.com/a'', ''https://example.org''] # []))
   \<and> [''https://example.com/a'', ''https://example.org''] \<noteq> []
   \<and> (\<exists>results s'.
         process_csv page_env True ''urls.csv'' ''out'' fresh
           = (Inr (map url (filter (\<lambda>r. status r = Success) results),
                   map url (filter (\<lambda>r. status r \<noteq> Success) results)), s')
         \<and> (ToCsv (joinpath ''out'' ''results.csv'') results, True) \<in> set (hist s')
         \<and> map url results = [''https://example.com/a'', ''https://example.org'']
         \<and> length results = length [''https://example.com/a'', ''https://example.org'']
         \<and> length (filter (\<lambda>r. status r = Success) results)
             + length (filter (\<lambda>r. status r \<noteq> Success) results)
             = length [''https://example.com/a'', ''https://example.org''])"
proof -
  have a: "no_interrupt page_env"
    by (simp add: no_interrupt_def page_env_def simple_urlparse_def is_Exception_def Let_def
        split: prod.splits)
  have b: "batch_services_ok page_env"
    by (simp add: batch_services_ok_def page_env_def)
  have c: "\<forall>h. answer_frame page_env h (ReadCsv ''urls.csv'')
          = Inr ([''https://example.com/a'', ''https://example.org''] # [])"
    by (simp add: page_env_def)
  have d: "[''https://example.com/a'', ''https://example.org''] \<noteq> []"
    by simp
  from process_csv_one_result_per_url [OF a b c d, of True "''out''" fresh] a b c d
  show ?thesis by blast
qed

text \<open>
  C1 as stated fails: the CSV file lists two URLs, the driver cannot be started,
  \<open>setup_driver\<close> raises again what it caught, and \<open>process_csv\<close> raises with no URL
  processed and no Result.
\<close>

theorem batch_without_driver_has_no_results:
  "answer_frame no_chrome_env [(Mkdir ''out/screenshots'', True)] (ReadCsv ''urls.csv'')
     = Inr [[''https://example.com/a'', ''https://example.org'']]
   \<and> process_csv no_chrome_env True ''urls.csv'' ''out'' fresh =
     (Inl (Exn WebDriverException ''chromedriver not found''),
      \<lparr>driver = None,
       hist = [(Mkdir ''out/screenshots'', True), (ReadCsv ''urls.csv'', True),
               (Chrome True, False)]\<rparr>)"
  by (simp add: batch_defs io_defs call_defs workflow_defs sample_defs no_chrome_env_def)


section \<open>Properties of \<open>create_zip\<close>\<close>

lemma concat_map_concat:
  "concat (map f (concat (map g xs))) = concat (map (\<lambda>x. concat (map f (g x))) xs)"
  by (induction xs) simp_all

lemma append_snoc_fun: "(@) (root @ [name]) = (\<lambda>p. root @ name # p)"
  by (rule ext) simp

lemma walk_files_under:
  "concat (map (\<lambda>(root', dirs, files). map (os_join root') files) (walk root tree))
     = map ((@) root) (files_under tree)"
proof (induction tree arbitrary: root)
  case (File name)
  show ?case by simp
next
  case (Dir name entries)
  have sub: "concat (map (\<lambda>(root', dirs, files). map (os_join root') files)
                 (walk (os_join root (node_name e)) e))
      = map ((@) (os_join root (node_name e))) (files_under e)"
    if "e \<in> set entries" for e
    by (rule Dir.IH [OF that])
  have below: "concat (map (\<lambda>e. concat (map (\<lambda>(root', dirs, files). map (os_join root') files)
                 (walk (os_join root (node_name e)) e))) (filter is_dir entries))
      = concat (map (\<lambda>e. map ((@) (os_join root (node_name e))) (files_under e))
                 (filter is_dir entries))"
    by (rule arg_cong [where f = concat], rule map_cong, rule refl) (simp add: sub)
  have here: "map (os_join root) (map node_name (filter (\<lambda>e. \<not> is_dir e) entries))
      = map ((@) root) (map (\<lambda>e. [node_name e]) (filter (\<lambda>e. \<not> is_dir e) entries))"
    by (simp add: os_join_def)
  have "concat (map (\<lambda>(root', dirs, files). map (os_join root') files) (walk root (Dir name entries)))
      = map (os_join root) (map node_name (filter (\<lambda>e. \<not> is_dir e) entries))
        @ concat (map (\<lambda>e. concat (map (\<lambda>(root', dirs, files). map (os_join root') files)
                 (walk (os_join root (node_name e)) e))) (filter is_dir entries))"
    by (simp add: concat_map_concat)
  also have "\<dots> = map ((@) root) (map (\<lambda>e. [node_name e]) (filter (\<lambda>e. \<not> is_dir e) entries))
        @ concat (map (\<lambda>e. map ((@) (os_join root (node_name e))) (files_under e))
                 (filter is_dir entries))"
    unfolding here below ..
  also have "\<dots> = map ((@) root) (files_under (Dir name entries))"
    by (simp add: map_concat comp_def os_join_def append_snoc_fun)
  finally show ?case .
qed

lemma create_zip_files_under:
  "create_zip output_path tree
     = map (\<lambda>p. (output_path @ p, relpath (output_path @ p) (parent output_path)))
         (files_under tree)"
proof -
  have "create_zip output_path tree
      = map (\<lambda>file_path. (file_path, relpath file_path (parent output_path)))
          (concat (map (\<lambda>(root', dirs, files). map (os_join root') files)
             (walk output_path tree)))"
    unfolding create_zip_def Let_def
    by (simp add: map_concat comp_def split_def)
  then show ?thesis
    by (simp add: walk_files_under comp_def)
qed

lemma common_prefix_append: "common_prefix xs (xs @ ys) = xs"
  by (induction xs) simp_all

lemma relpath_below:
  assumes "output_path \<noteq> []"
  shows "relpath (output_path @ p) (parent output_path) = last output_path # p"
proof -
  have split: "output_path @ p = butlast output_path @ (last output_path # p)"
    using assms by simp
  have "common_prefix (butlast output_path) (output_path @ p) = butlast output_path"
    unfolding split by (rule common_prefix_append)
  then show ?thesis
    unfolding relpath_def parent_def Let_def
    by (simp add: split)
qed

lemma files_under_nonempty: "[] \<notin> set (files_under tree)"
  by (cases tree) auto

lemma find_by_name:
  assumes "distinct (map node_name entries)" and "e \<in> set entries"
  shows "find (\<lambda>e'. node_name e' = node_name e) entries = Some e"
  using assms by (induction entries) auto

lemma lookup_Dir_Cons:
  assumes "distinct (map node_name entries)"
  shows "lookup (Dir name entries) (x # p) = Some node
     \<longleftrightarrow> (\<exists>e \<in> set entries. node_name e = x \<and> lookup e p = Some node)"
proof
  assume "lookup (Dir name entries) (x # p) = Some node"
  then obtain e where "find (\<lambda>e. node_name e = x) entries = Some e" and "lookup e p = Some node"
    by (auto split: option.splits)
  then show "\<exists>e \<in> set entries. node_name e = x \<and> lookup e p = Some node"
    by (auto simp: find_Some_iff)
next
  assume "\<exists>e \<in> set entries. node_name e = x \<and> lookup e p = Some node"
  then obtain e where "e \<in> set entries" and "node_name e = x" and "lookup e p = Some node"
    by blast
  with find_by_name [OF assms, of e] show "lookup (Dir name entries) (x # p) = Some node"
    by auto
qed

lemma is_file_at_iff: "is_file_at tree p \<longleftrightarrow> (\<exists>f. lookup tree p = Some (File f))"
  unfolding is_file_at_def by (auto split: option.splits fsnode.splits)

lemma is_file_at_Dir_Cons:
  assumes "distinct (map node_name entries)"
  shows "is_file_at (Dir name entries) (x # p)
     \<longleftrightarrow> (\<exists>e \<in> set entries. node_name e = x \<and> is_file_at e p)"
  unfolding is_file_at_iff using lookup_Dir_Cons [OF assms] by blast

lemma is_file_at_File: "is_file_at (File name) p \<longleftrightarrow> p = []"
  by (cases p) (simp_all add: is_file_at_iff)

lemma is_file_at_Dir_Nil: "\<not> is_file_at (Dir name entries) []"
  by (simp add: is_file_at_iff)

lemma set_files_under:
  "wf_tree tree \<Longrightarrow> set (files_under tree) = {p. is_file_at tree p \<and> p \<noteq> []}"
proof (induction tree)
  case (File name)
  show ?case by (auto simp: is_file_at_File)
next
  case (Dir name entries)
  then have names: "distinct (map node_name entries)"
    and sub: "\<And>e. e \<in> set entries \<Longrightarrow> set (files_under e) = {p. is_file_at e p \<and> p \<noteq> []}"
    by (auto simp: list_all_iff)
  show ?case
  proof (intro set_eqI iffI)
    fix p
    assume "p \<in> set (files_under (Dir name entries))"
    then consider e where "e \<in> set entries" and "\<not> is_dir e" and "p = [node_name e]"
      | e q where "e \<in> set entries" and "is_dir e" and "q \<in> set (files_under e)"
          and "p = node_name e # q"
      by auto
    then have "is_file_at (Dir name entries) p \<and> p \<noteq> []"
    proof cases
      case 1
      from 1(2) have "is_file_at e []" by (cases e) (simp_all add: is_file_at_iff)
      with 1(1) have "\<exists>e' \<in> set entries. node_name e' = node_name e \<and> is_file_at e' []"
        by blast
      then have "is_file_at (Dir name entries) (node_name e # [])"
        by (simp only: is_file_at_Dir_Cons [OF names])
      with 1(3) show ?thesis by simp
    next
      case 2
      with sub [of e] have "is_file_at e q" by simp
      with 2(1) have "\<exists>e' \<in> set entries. node_name e' = node_name e \<and> is_file_at e' q"
        by blast
      then have "is_file_at (Dir name entries) (node_name e # q)"
        by (simp only: is_file_at_Dir_Cons [OF names])
      with 2(4) show ?thesis by simp
    qed
    then show "p \<in> {p. is_file_at (Dir name entries) p \<and> p \<noteq> []}" by simp
  next
    fix p
    assume "p \<in> {p. is_file_at (Dir name entries) p \<and> p \<noteq> []}"
    then obtain x q where p: "p = x # q" and "is_file_at (Dir name entries) (x # q)"
      by (cases p) auto
    then obtain e where e: "e \<in> set entries" and x: "node_name e = x" and q: "is_file_at e q"
      using is_file_at_Dir_Cons [OF names] by blast
    show "p \<in> set (files_under (Dir name entries))"
    proof (cases e)
      case (File f)
      with q have "q = []" by (simp add: is_file_at_File)
      with File x p have "p = [node_name e]" and "\<not> is_dir e" by simp_all
      with e have "p \<in> set (map (\<lambda>e. [node_name e]) (filter (\<lambda>e. \<not> is_dir e) entries))"
        by auto
      then show ?thesis by simp
    next
      case (Dir d sub_entries)
      with q have "q \<noteq> []" by (auto simp: is_file_at_Dir_Nil)
      with q sub [OF e] have "q \<in> set (files_under e)" by simp
      moreover from Dir have "is_dir e" by simp
      ultimately have "p \<in> set (concat (map (\<lambda>e. map ((#) (node_name e)) (files_under e))
                     (filter is_dir entries)))"
        using e x p by auto
      then show ?thesis by simp
    qed
  qed
qed

lemma distinct_below:
  assumes "distinct (map node_name entries)"
    and "\<And>e. e \<in> set entries \<Longrightarrow> distinct (files_under e)"
  shows "distinct (concat (map (\<lambda>e. map ((#) (node_name e)) (files_under e))
                     (filter is_dir entries)))"
  using assms
proof (induction entries)
  case Nil
  show ?case by simp
next
  case (Cons e entries)
  then have rest: "distinct (concat (map (\<lambda>e. map ((#) (node_name e)) (files_under e))
                     (filter is_dir entries)))"
    by simp
  have here: "distinct (map ((#) (node_name e)) (files_under e))"
    using Cons.prems(2) [of e] by (simp add: distinct_map)
  have apart: "set (map ((#) (node_name e)) (files_under e))
      \<inter> set (concat (map (\<lambda>e. map ((#) (node_name e)) (files_under e))
                     (filter is_dir entries))) = {}"
    using Cons.prems(1) by auto
  from rest here apart show ?case by simp
qed

lemma distinct_files_under: "wf_tree tree \<Longrightarrow> distinct (files_under tree)"
proof (induction tree)
  case (File name)
  show ?case by simp
next
  case (Dir name entries)
  then have names: "distinct (map node_name entries)"
    and sub: "\<And>e. e \<in> set entries \<Longrightarrow> distinct (files_under e)"
    by (auto simp: list_all_iff)
  have files: "distinct (map (\<lambda>e. [node_name e]) (filter (\<lambda>e. \<not> is_dir e) entries))"
    using names by (induction entries) auto
  have apart: "set (map (\<lambda>e. [node_name e]) (filter (\<lambda>e. \<not> is_dir e) entries))
      \<inter> set (concat (map (\<lambda>e. map ((#) (node_name e)) (files_under e))
                     (filter is_dir entries))) = {}"
    using files_under_nonempty by auto
  show ?case
    unfolding files_under.simps distinct_append
    using files distinct_below [OF names sub] apart by blast
qed

text \<open>
  C8.  For a well-formed directory at a path other than the root, the archive that
  \<open>create_zip\<close> writes has exactly one entry for every file under the directory and no
  other entry: the entry of the file at relative path \<open>p\<close> is read from
  \<open>output_path @ p\<close> and is named by its path relative to the parent of the directory,
  which is the directory's own name followed by \<open>p\<close>.  The number of entries is the
  number of files under the directory.
\<close>

theorem create_zip_archives_every_file_once:
  assumes "wf_tree (Dir name entries)" and "output_path \<noteq> []"
  shows "\<exists>ps. distinct ps \<and> set ps = {p. is_file_at (Dir name entries) p}
     \<and> create_zip output_path (Dir name entries)
         = map (\<lambda>p. (output_path @ p, last output_path # p)) ps
     \<and> (\<forall>p \<in> set ps. relpath (output_path @ p) (parent output_path) = last output_path # p)
     \<and> length (create_zip output_path (Dir name entries))
         = card {p. is_file_at (Dir name entries) p}"
proof -
  let ?ps = "files_under (Dir name entries)"
  have d: "distinct ?ps"
    using assms(1) by (rule distinct_files_under)
  have s: "set ?ps = {p. is_file_at (Dir name entries) p}"
    using set_files_under [OF assms(1)] is_file_at_Dir_Nil by auto
  have z: "create_zip output_path (Dir name entries)
         = map (\<lambda>p. (output_path @ p, last output_path # p)) ?ps"
    unfolding create_zip_files_under by (simp add: relpath_below [OF assms(2)])
  have r: "\<forall>p \<in> set ?ps. relpath (output_path @ p) (parent output_path) = last output_path # p"
    by (simp add: relpath_below [OF assms(2)])
  have "length (create_zip output_path (Dir name entries)) = length ?ps"
    unfolding z by simp
  also have "\<dots> = card (set ?ps)"
    by (rule distinct_card [OF d, symmetric])
  finally have c: "length (create_zip output_path (Dir name entries))
         = card {p. is_file_at (Dir name entries) p}"
    using s by simp
  from d s z r c show ?thesis by blast
qed

lemma sample_archive:
  "create_zip [''output'', ''run_20240101_000000''] sample_tree =
     [([''output'', ''run_20240101_000000'', ''results.csv''],
       [''run_20240101_000000'', ''results.csv'']),
      ([''output'', ''run_20240101_000000'', ''screenshots'', ''example-com-a.png''],
       [''run_20240101_000000'', ''screenshots'', ''example-com-a.png'']),
      ([''output'', ''run_20240101_000000'', ''screenshots'', ''debug_example-com-a_initial.png''],
       [''run_20240101_000000'', ''screenshots'', ''debug_example-com-a_initial.png''])]"
  by (simp add: create_zip_def sample_tree_def os_join_def relpath_def parent_def Let_def)

theorem create_zip_archives_every_file_once_witness:
  "wf_tree sample_tree \<and> [''output'', ''run_20240101_000000''] \<noteq> []
   \<and> create_zip [''output'', ''run_20240101_000000''] sample_tree =
     [([''output'', ''run_20240101_000000'', ''results.csv''],
       [''run_20240101_000000'', ''results.csv'']),
      ([''output'', ''run_20240101_000000'', ''screenshots'', ''example-com-a.png''],
       [''run_20240101_000000'', ''screenshots'', ''example-com-a.png'']),
      ([''output'', ''run_20240101_000000'', ''screenshots'', ''debug_example-com-a_initial.png''],
       [''run_20240101_000000'', ''screenshots'', ''debug_example-com-a_initial.png''])]
   \<and> card {p. is_file_at sample_tree p} = 3"
proof -
  have w: "wf_tree (Dir ''run_20240101_000000''
       [Dir ''screenshots'' [File ''example-com-a.png'', File ''debug_example-com-a_initial.png''],
        File ''results.csv'',
        Dir ''empty'' []])"
    by simp
  have n: "[''output'', ''run_20240101_000000''] \<noteq> []"
    by simp
  from create_zip_archives_every_file_once [OF w n]
  have "length (create_zip [''output'', ''run_20240101_000000''] sample_tree)
      = card {p. is_file_at sample_tree p}"
    unfolding sample_tree_def by blast
  with sample_archive have "card {p. is_file_at sample_tree p} = 3"
    by simp
  with w n sample_archive show ?thesis
    by (simp add: sample_tree_def)
qed


end
